theory Spec2Isabelle
  imports Main
begin

section \<open>Retro Snake Game: the game-state core of \<^verbatim>\<open>snake_game.py\<close>\<close>

text \<open>
  The theory embeds the classes \<^verbatim>\<open>Direction\<close>, \<^verbatim>\<open>Snake\<close>, \<^verbatim>\<open>Food\<close> and the
  state-changing methods of \<^verbatim>\<open>Game\<close> (\<^verbatim>\<open>handle_events\<close>, \<^verbatim>\<open>update\<close>,
  \<^verbatim>\<open>reset_game\<close>). Drawing, fonts, the display and the frame clock do not touch the
  fields modelled here and are left out.

  Python integers are \<open>int\<close>. A method that mutates \<^verbatim>\<open>self\<close> takes the object and
  returns the updated one. An exception is a value \<open>Inl e\<close> of a sum type. A call that
  may loop forever returns an \<open>option\<close>, where \<open>None\<close> means that the call never returns.
\<close>

subsection \<open>Module constants\<close>

definition WINDOW_WIDTH :: int where "WINDOW_WIDTH = 800"
definition WINDOW_HEIGHT :: int where "WINDOW_HEIGHT = 600"
definition GRID_SIZE :: int where "GRID_SIZE = 20"
definition GRID_WIDTH :: int where "GRID_WIDTH = WINDOW_WIDTH div GRID_SIZE"
definition GRID_HEIGHT :: int where "GRID_HEIGHT = WINDOW_HEIGHT div GRID_SIZE"
definition INITIAL_SNAKE_LENGTH :: int where "INITIAL_SNAKE_LENGTH = 3"

subsection \<open>Exceptions\<close>

datatype error = IndexError | ValueError

subsection \<open>The random source\<close>

text \<open>
  The module-global generator of \<^verbatim>\<open>random\<close> is an infinite sequence of raw draws with a
  cursor. \<^verbatim>\<open>random.randint(a, b)\<close> raises \<^verbatim>\<open>ValueError\<close> on an empty range and otherwise
  consumes one draw and returns an integer \<open>n\<close> with \<open>a \<le> n \<le> b\<close>; every such integer is
  the image of some draw.
\<close>

record rng =
  draws :: "nat \<Rightarrow> nat"
  cursor :: nat

definition randint :: "int \<Rightarrow> int \<Rightarrow> rng \<Rightarrow> error + int \<times> rng" where
  "randint a b rs =
     (if b < a then Inl ValueError
      else Inr (a + int (draws rs (cursor rs) mod nat (b - a + 1)),
                rs\<lparr>cursor := cursor rs + 1\<rparr>))"

subsection \<open>Direction\<close>

datatype Direction = UP | DOWN | LEFT | RIGHT

fun direction_value :: "Direction \<Rightarrow> int \<times> int" where
  "direction_value UP = (0, -1)"
| "direction_value DOWN = (0, 1)"
| "direction_value LEFT = (-1, 0)"
| "direction_value RIGHT = (1, 0)"

subsection \<open>Snake\<close>

type_synonym cell = "int \<times> int"

text \<open>The deque \<^verbatim>\<open>body\<close> is a list, tail of the snake first and head last.\<close>

record Snake =
  body :: "cell list"
  direction :: Direction
  grow_pending :: bool

text \<open>\<^verbatim>\<open>range(n - 1, -1, -1)\<close>: the integers \<open>n - 1\<close> down to \<open>0\<close>.\<close>

definition range_down :: "int \<Rightarrow> int list" where
  "range_down n = rev [0..n - 1]"

definition snake_reset :: "Snake \<Rightarrow> Snake" where
  "snake_reset s =
     (let start_x = GRID_WIDTH div 2;
          start_y = GRID_HEIGHT div 2
      in s\<lparr>body := foldl (\<lambda>b i. b @ [(start_x - i, start_y)]) []
                        (range_down INITIAL_SNAKE_LENGTH),
           direction := RIGHT,
           grow_pending := False\<rparr>)"

definition snake_init :: Snake where
  "snake_init = snake_reset \<lparr>body = [], direction = RIGHT, grow_pending = False\<rparr>"

text \<open>\<^verbatim>\<open>self.body[-1]\<close> raises \<^verbatim>\<open>IndexError\<close> on an empty deque.\<close>

definition get_head :: "Snake \<Rightarrow> error + cell" where
  "get_head s = (if body s = [] then Inl IndexError else Inr (last (body s)))"

text \<open>\<^verbatim>\<open>deque.popleft()\<close> raises \<^verbatim>\<open>IndexError\<close> on an empty deque.\<close>

definition popleft :: "cell list \<Rightarrow> error + cell list" where
  "popleft b = (case b of [] \<Rightarrow> Inl IndexError | x # xs \<Rightarrow> Inr xs)"

definition move :: "Snake \<Rightarrow> error + Snake" where
  "move s =
     (case get_head s of
        Inl e \<Rightarrow> Inl e
      | Inr (head_x, head_y) \<Rightarrow>
          (case direction_value (direction s) of (dx, dy) \<Rightarrow>
             let new_head = (head_x + dx, head_y + dy);
                 s1 = s\<lparr>body := body s @ [new_head]\<rparr>
             in if \<not> grow_pending s1
                then (case popleft (body s1) of
                        Inl e \<Rightarrow> Inl e
                      | Inr b \<Rightarrow> Inr (s1\<lparr>body := b\<rparr>))
                else Inr (s1\<lparr>grow_pending := False\<rparr>)))"

definition grow :: "Snake \<Rightarrow> Snake" where
  "grow s = s\<lparr>grow_pending := True\<rparr>"

text \<open>The dictionary built in \<^verbatim>\<open>change_direction\<close>; \<^verbatim>\<open>.get\<close> is the map lookup.\<close>

definition opposite_directions :: "Direction \<rightharpoonup> Direction" where
  "opposite_directions = [UP \<mapsto> DOWN, DOWN \<mapsto> UP, LEFT \<mapsto> RIGHT, RIGHT \<mapsto> LEFT]"

definition change_direction :: "Snake \<Rightarrow> Direction \<Rightarrow> Snake" where
  "change_direction s new_direction =
     (if Some new_direction \<noteq> opposite_directions (direction s)
      then s\<lparr>direction := new_direction\<rparr>
      else s)"

definition check_collision :: "Snake \<Rightarrow> error + bool" where
  "check_collision s =
     (case get_head s of
        Inl e \<Rightarrow> Inl e
      | Inr (head_x, head_y) \<Rightarrow>
          if head_x < 0 \<or> head_x \<ge> GRID_WIDTH \<or> head_y < 0 \<or> head_y \<ge> GRID_HEIGHT
          then Inr True
          else let body_without_head = butlast (body s)
               in (case get_head s of
                     Inl e \<Rightarrow> Inl e
                   | Inr h \<Rightarrow>
                       if h \<in> set body_without_head then Inr True else Inr False))"

subsection \<open>Food\<close>

record Food =
  position :: cell

text \<open>
  \<^verbatim>\<open>Food.spawn\<close> is a \<^verbatim>\<open>while True\<close> loop that leaves only through \<^verbatim>\<open>break\<close>. The
  argument \<^verbatim>\<open>snake_body\<close> defaults to \<^verbatim>\<open>None\<close>.
\<close>

partial_function (option)
  spawn :: "rng \<Rightarrow> Food \<Rightarrow> cell list option \<Rightarrow> (error + Food \<times> rng) option"
where
  "spawn rs f snake_body =
     (case randint 0 (GRID_WIDTH - 1) rs of
        Inl e \<Rightarrow> Some (Inl e)
      | Inr (x, rs1) \<Rightarrow>
          (case randint 0 (GRID_HEIGHT - 1) rs1 of
             Inl e \<Rightarrow> Some (Inl e)
           | Inr (y, rs2) \<Rightarrow>
               if (case snake_body of None \<Rightarrow> True | Some b \<Rightarrow> (x, y) \<notin> set b)
               then Some (Inr (f\<lparr>position := (x, y)\<rparr>, rs2))
               else spawn rs2 f snake_body))"

declare spawn.simps [code]

definition food_init :: "rng \<Rightarrow> (error + Food \<times> rng) option" where
  "food_init rs = spawn rs \<lparr>position = (0, 0)\<rparr> None"

subsection \<open>Game\<close>

record Game =
  snake :: Snake
  food :: Food
  score :: int
  high_score :: int
  running :: bool
  game_over :: bool

text \<open>\<^verbatim>\<open>Game.__init__\<close>, without the display, the clock and the fonts.\<close>

definition game_init :: "rng \<Rightarrow> (error + Game \<times> rng) option" where
  "game_init rs =
     (case food_init rs of
        None \<Rightarrow> None
      | Some (Inl e) \<Rightarrow> Some (Inl e)
      | Some (Inr (f, rs')) \<Rightarrow>
          Some (Inr (\<lparr>snake = snake_init, food = f, score = 0, high_score = 0,
                      running = True, game_over = False\<rparr>, rs')))"

text \<open>
  \<^verbatim>\<open>Game.update\<close> has no \<^verbatim>\<open>return\<close> with a value: on every path Python returns
  \<^verbatim>\<open>None\<close>, so the model returns the updated objects only.
\<close>

definition update :: "rng \<Rightarrow> Game \<Rightarrow> (error + Game \<times> rng) option" where
  "update rs g =
     (if game_over g then Some (Inr (g, rs))
      else
        (case move (snake g) of
           Inl e \<Rightarrow> Some (Inl e)
         | Inr s1 \<Rightarrow>
             let g1 = g\<lparr>snake := s1\<rparr>
             in (case check_collision (snake g1) of
                   Inl e \<Rightarrow> Some (Inl e)
                 | Inr c \<Rightarrow>
                     if c
                     then let g2 = g1\<lparr>game_over := True\<rparr>
                          in Some (Inr (if score g2 > high_score g2
                                        then g2\<lparr>high_score := score g2\<rparr>
                                        else g2, rs))
                     else
                       (case get_head (snake g1) of
                          Inl e \<Rightarrow> Some (Inl e)
                        | Inr h \<Rightarrow>
                            if h = position (food g1)
                            then let g2 = g1\<lparr>snake := grow (snake g1)\<rparr>;
                                     g3 = g2\<lparr>score := score g2 + 10\<rparr>
                                 in (case spawn rs (food g3) (Some (body (snake g3))) of
                                       None \<Rightarrow> None
                                     | Some (Inl e) \<Rightarrow> Some (Inl e)
                                     | Some (Inr (f, rs')) \<Rightarrow>
                                         Some (Inr (g3\<lparr>food := f\<rparr>, rs')))
                            else Some (Inr (g1, rs))))))"

definition reset_game :: "rng \<Rightarrow> Game \<Rightarrow> (error + Game \<times> rng) option" where
  "reset_game rs g =
     (let g1 = g\<lparr>snake := snake_reset (snake g)\<rparr>
      in (case spawn rs (food g1) (Some (body (snake g1))) of
            None \<Rightarrow> None
          | Some (Inl e) \<Rightarrow> Some (Inl e)
          | Some (Inr (f, rs')) \<Rightarrow>
              Some (Inr (g1\<lparr>food := f, score := 0, game_over := False\<rparr>, rs'))))"

text \<open>
  The events \<^verbatim>\<open>handle_events\<close> distinguishes: \<^verbatim>\<open>pygame.QUIT\<close>, \<^verbatim>\<open>pygame.KEYDOWN\<close>
  with one of the keys it tests, and anything else.
\<close>

datatype key =
  K_UP | K_DOWN | K_LEFT | K_RIGHT | K_w | K_a | K_s | K_d
| K_SPACE | K_RETURN | K_ESCAPE | K_other

datatype event = QUIT | KEYDOWN key | OTHER_EVENT

definition handle_event :: "rng \<Rightarrow> Game \<Rightarrow> event \<Rightarrow> (error + Game \<times> rng) option" where
  "handle_event rs g ev =
     (case ev of
        QUIT \<Rightarrow> Some (Inr (g\<lparr>running := False\<rparr>, rs))
      | KEYDOWN k \<Rightarrow>
          if game_over g
          then (if k = K_SPACE \<or> k = K_RETURN then reset_game rs g
                else if k = K_ESCAPE then Some (Inr (g\<lparr>running := False\<rparr>, rs))
                else Some (Inr (g, rs)))
          else (if k = K_UP \<or> k = K_w
                then Some (Inr (g\<lparr>snake := change_direction (snake g) UP\<rparr>, rs))
                else if k = K_DOWN \<or> k = K_s
                then Some (Inr (g\<lparr>snake := change_direction (snake g) DOWN\<rparr>, rs))
                else if k = K_LEFT \<or> k = K_a
                then Some (Inr (g\<lparr>snake := change_direction (snake g) LEFT\<rparr>, rs))
                else if k = K_RIGHT \<or> k = K_d
                then Some (Inr (g\<lparr>snake := change_direction (snake g) RIGHT\<rparr>, rs))
                else if k = K_ESCAPE then Some (Inr (g\<lparr>running := False\<rparr>, rs))
                else Some (Inr (g, rs)))
      | OTHER_EVENT \<Rightarrow> Some (Inr (g, rs)))"

text \<open>The \<^verbatim>\<open>for\<close> loop over the list returned by \<^verbatim>\<open>pygame.event.get()\<close>.\<close>

fun handle_events :: "rng \<Rightarrow> Game \<Rightarrow> event list \<Rightarrow> (error + Game \<times> rng) option" where
  "handle_events rs g [] = Some (Inr (g, rs))"
| "handle_events rs g (ev # evs) =
     (case handle_event rs g ev of
        None \<Rightarrow> None
      | Some (Inl e) \<Rightarrow> Some (Inl e)
      | Some (Inr (g', rs')) \<Rightarrow> handle_events rs' g' evs)"

subsection \<open>Notions used to state the properties\<close>

text \<open>A cell of the playfield: \<open>0 \<le> x < GRID_WIDTH\<close> and \<open>0 \<le> y < GRID_HEIGHT\<close>.\<close>

definition in_grid :: "cell \<Rightarrow> bool" where
  "in_grid c = (0 \<le> fst c \<and> fst c < GRID_WIDTH \<and> 0 \<le> snd c \<and> snd c < GRID_HEIGHT)"

text \<open>
  Each pass of the loop of \<^verbatim>\<open>Food.spawn\<close> consumes two draws. \<open>attempt rs k\<close> is the cell
  that pass number \<open>k\<close> (from 0) samples when the loop starts with the random source \<open>rs\<close>,
  and \<open>skip k rs\<close> is the random source after \<open>k\<close> passes.
\<close>

definition attempt :: "rng \<Rightarrow> nat \<Rightarrow> cell" where
  "attempt rs k =
     (int (draws rs (cursor rs + 2 * k) mod nat GRID_WIDTH),
      int (draws rs (cursor rs + 2 * k + 1) mod nat GRID_HEIGHT))"

definition skip :: "nat \<Rightarrow> rng \<Rightarrow> rng" where
  "skip k rs = rs\<lparr>cursor := cursor rs + 2 * k\<rparr>"

text \<open>\<open>n\<close> calls of \<^verbatim>\<open>update\<close> in a row, as the main loop makes them.\<close>

fun updates :: "nat \<Rightarrow> rng \<Rightarrow> Game \<Rightarrow> (error + Game \<times> rng) option" where
  "updates 0 rs g = Some (Inr (g, rs))"
| "updates (Suc n) rs g =
     (case update rs g of
        None \<Rightarrow> None
      | Some (Inl e) \<Rightarrow> Some (Inl e)
      | Some (Inr (g', rs')) \<Rightarrow> updates n rs' g')"

text \<open>
  The call of \<^verbatim>\<open>update\<close> ends the run: the game was running, and the moved snake
  collides.
\<close>

definition run_ends :: "Game \<Rightarrow> bool" where
  "run_ends g =
     (\<not> game_over g \<and>
      (case move (snake g) of
         Inl e \<Rightarrow> False
       | Inr s1 \<Rightarrow> check_collision s1 = Inr True))"

text \<open>Every cell of the playfield, column by column.\<close>

definition all_cells :: "cell list" where
  "all_cells = List.product [0..GRID_WIDTH - 1] [0..GRID_HEIGHT - 1]"

text \<open>
  The state of the scenario: the snake as \<^verbatim>\<open>reset\<close> leaves it, heading right, and the
  food in the cell in front of its head.
\<close>

definition scenario :: Game where
  "scenario =
     \<lparr>snake = \<lparr>body = [(18, 15), (19, 15), (20, 15)], direction = RIGHT,
               grow_pending = False\<rparr>,
      food = \<lparr>position = (21, 15)\<rparr>,
      score = 0, high_score = 0, running = True, game_over = False\<rparr>"

text \<open>Two random sources for concrete runs: all draws 0, and the draws 0, 1, 2, ...\<close>

definition rng_zero :: rng where
  "rng_zero = \<lparr>draws = (\<lambda>n. 0), cursor = 0\<rparr>"

definition rng_count :: rng where
  "rng_count = \<lparr>draws = (\<lambda>n. n), cursor = 0\<rparr>"

subsection \<open>The grid and the random source\<close>

lemma GRID_WIDTH_eq: "GRID_WIDTH = 40"
  by (simp add: GRID_WIDTH_def WINDOW_WIDTH_def GRID_SIZE_def)

lemma GRID_HEIGHT_eq: "GRID_HEIGHT = 30"
  by (simp add: GRID_HEIGHT_def WINDOW_HEIGHT_def GRID_SIZE_def)

lemma randint_width:
  "randint 0 (GRID_WIDTH - 1) rs =
     Inr (int (draws rs (cursor rs) mod nat GRID_WIDTH), rs\<lparr>cursor := cursor rs + 1\<rparr>)"
  by (simp add: randint_def GRID_WIDTH_eq)

lemma randint_height:
  "randint 0 (GRID_HEIGHT - 1) rs =
     Inr (int (draws rs (cursor rs) mod nat GRID_HEIGHT), rs\<lparr>cursor := cursor rs + 1\<rparr>)"
  by (simp add: randint_def GRID_HEIGHT_eq)

lemma attempt_skip: "attempt (skip j rs) k = attempt rs (j + k)"
  by (simp add: attempt_def skip_def algebra_simps)

lemma skip_skip: "skip j (skip k rs) = skip (k + j) rs"
  by (simp add: skip_def algebra_simps)

lemma attempt_in_grid: "in_grid (attempt rs k)"
  by (simp add: in_grid_def attempt_def GRID_WIDTH_eq GRID_HEIGHT_eq)

lemma in_grid_all_cells: "in_grid c \<Longrightarrow> c \<in> set all_cells"
  by (cases c) (simp add: in_grid_def all_cells_def)

subsection \<open>The loop of \<^verbatim>\<open>Food.spawn\<close>\<close>

text \<open>One pass of the loop, in terms of \<open>attempt\<close> and \<open>skip\<close>.\<close>

lemma spawn_unfold:
  "spawn rs f sb =
     (if (case sb of None \<Rightarrow> True | Some b \<Rightarrow> attempt rs 0 \<notin> set b)
      then Some (Inr (f\<lparr>position := attempt rs 0\<rparr>, skip 1 rs))
      else spawn (skip 1 rs) f sb)"
  by (subst spawn.simps, cases sb)
     (simp_all add: randint_width randint_height attempt_def skip_def)

text \<open>The loop leaves at the first pass whose cell is free.\<close>

lemma spawn_returns_at:
  "attempt rs k \<notin> set b \<Longrightarrow> \<forall>j<k. attempt rs j \<in> set b \<Longrightarrow>
   spawn rs f (Some b) = Some (Inr (f\<lparr>position := attempt rs k\<rparr>, skip (Suc k) rs))"
proof (induction k arbitrary: rs)
  case 0
  then show ?case by (subst spawn_unfold) simp
next
  case (Suc k)
  have "attempt (skip 1 rs) k \<notin> set b"
    using Suc.prems(1) by (simp add: attempt_skip)
  moreover have "\<forall>j<k. attempt (skip 1 rs) j \<in> set b"
    using Suc.prems(2) by (simp add: attempt_skip)
  ultimately have "spawn (skip 1 rs) f (Some b) =
      Some (Inr (f\<lparr>position := attempt (skip 1 rs) k\<rparr>, skip (Suc k) (skip 1 rs)))"
    by (rule Suc.IH)
  moreover have "attempt rs 0 \<in> set b" using Suc.prems(2) by simp
  ultimately show ?case
    by (subst spawn_unfold) (simp add: attempt_skip skip_skip)
qed

lemma spawn_None_arg:
  "spawn rs f None = Some (Inr (f\<lparr>position := attempt rs 0\<rparr>, skip 1 rs))"
  by (subst spawn_unfold) simp

text \<open>Whatever the loop returns is the cell of some pass, the first free one.\<close>

lemma spawn_result:
  assumes "spawn rs0 f0 sb0 = Some r0"
  shows "\<exists>k. r0 = Inr (f0\<lparr>position := attempt rs0 k\<rparr>, skip (Suc k) rs0) \<and>
       (\<forall>b. sb0 = Some b \<longrightarrow> attempt rs0 k \<notin> set b \<and> (\<forall>j<k. attempt rs0 j \<in> set b))"
proof (rule spawn.raw_induct[where P = "\<lambda>rs f sb r.
         \<exists>k. r = Inr (f\<lparr>position := attempt rs k\<rparr>, skip (Suc k) rs) \<and>
         (\<forall>b. sb = Some b \<longrightarrow> attempt rs k \<notin> set b \<and> (\<forall>j<k. attempt rs j \<in> set b))",
       OF _ assms], goal_cases)
  case (1 spawn' rs f sb r)
  show ?case
  proof (cases "case sb of None \<Rightarrow> True | Some b \<Rightarrow> attempt rs 0 \<notin> set b")
    case True
    with 1(2) have "r = Inr (f\<lparr>position := attempt rs 0\<rparr>, skip 1 rs)"
      by (cases sb) (simp_all add: randint_width randint_height attempt_def skip_def)
    with True show ?thesis by (intro exI[of _ 0]) (auto split: option.splits)
  next
    case False
    with 1(2) have "spawn' (skip 1 rs) f sb = Some r"
      by (cases sb) (simp_all add: randint_width randint_height attempt_def skip_def)
    from 1(1)[OF this] obtain k where
      k: "r = Inr (f\<lparr>position := attempt (skip 1 rs) k\<rparr>, skip (Suc k) (skip 1 rs))"
         "\<forall>b. sb = Some b \<longrightarrow>
            attempt (skip 1 rs) k \<notin> set b \<and> (\<forall>j<k. attempt (skip 1 rs) j \<in> set b)"
      by blast
    from False obtain b where b: "sb = Some b" "attempt rs 0 \<in> set b"
      by (auto split: option.splits)
    have "\<forall>j<Suc k. attempt rs j \<in> set b"
    proof (intro allI impI)
      fix j assume "j < Suc k"
      show "attempt rs j \<in> set b"
      proof (cases j)
        case 0 with b show ?thesis by simp
      next
        case (Suc i)
        with \<open>j < Suc k\<close> k(2) b(1) show ?thesis by (simp add: attempt_skip)
      qed
    qed
    with k b show ?thesis
      by (intro exI[of _ "Suc k"]) (simp add: attempt_skip skip_skip)
  qed
qed

lemma spawn_diverges:
  assumes "\<forall>k. attempt rs k \<in> set b"
  shows "spawn rs f (Some b) = None"
proof (rule ccontr)
  assume "spawn rs f (Some b) \<noteq> None"
  then obtain r where "spawn rs f (Some b) = Some r" by auto
  from spawn_result[OF this] assms show False by auto
qed

lemma spawn_returns:
  assumes "\<exists>k. attempt rs k \<notin> set b"
  shows "\<exists>k. spawn rs f (Some b) = Some (Inr (f\<lparr>position := attempt rs k\<rparr>, skip (Suc k) rs))
             \<and> attempt rs k \<notin> set b"
proof -
  let ?P = "\<lambda>k. attempt rs k \<notin> set b"
  from assms have "?P (LEAST k. ?P k)" by (rule LeastI_ex)
  moreover have "\<forall>j<(LEAST k. ?P k). attempt rs j \<in> set b"
    using not_less_Least by blast
  ultimately show ?thesis using spawn_returns_at by blast
qed

subsection \<open>Snake: movement, turning and collision\<close>

lemma move_nonempty:
  assumes "body s \<noteq> []"
  shows "move s =
     Inr (let new_head = (fst (last (body s)) + fst (direction_value (direction s)),
                          snd (last (body s)) + snd (direction_value (direction s)))
          in if grow_pending s
             then s\<lparr>body := body s @ [new_head], grow_pending := False\<rparr>
             else s\<lparr>body := tl (body s @ [new_head])\<rparr>)"
proof -
  obtain hx hy where h: "last (body s) = (hx, hy)" by (cases "last (body s)")
  obtain dx dy where d: "direction_value (direction s) = (dx, dy)"
    by (cases "direction_value (direction s)")
  obtain c cs where b: "body s = c # cs" using assms by (cases "body s") auto
  show ?thesis
    using h by (auto simp add: move_def get_head_def popleft_def Let_def d b)
qed

lemma move_empty: "body s = [] \<Longrightarrow> move s = Inl IndexError"
  by (simp add: move_def get_head_def)

lemma check_collision_nonempty:
  assumes "body s \<noteq> []"
  shows "check_collision s =
     Inr (\<not> in_grid (last (body s)) \<or> last (body s) \<in> set (butlast (body s)))"
proof -
  obtain hx hy where h: "last (body s) = (hx, hy)" by (cases "last (body s)")
  show ?thesis using assms
    by (auto simp add: check_collision_def get_head_def in_grid_def h)
qed

text \<open>
  C3. For a snake with a non-empty body, \<^verbatim>\<open>check_collision\<close> returns (without raising)
  the truth value of: the head \<open>(head_x, head_y)\<close> has \<open>head_x < 0\<close> or
  \<open>head_x \<ge> GRID_WIDTH\<close> or \<open>head_y < 0\<close> or \<open>head_y \<ge> GRID_HEIGHT\<close>, or the head cell
  occurs in the body at an index other than the last one.
\<close>

theorem check_collision_iff:
  assumes "body s \<noteq> []"
  shows "check_collision s =
     Inr (fst (last (body s)) < 0 \<or> fst (last (body s)) \<ge> GRID_WIDTH \<or>
          snd (last (body s)) < 0 \<or> snd (last (body s)) \<ge> GRID_HEIGHT \<or>
          (\<exists>i. i < length (body s) - 1 \<and> body s ! i = last (body s)))"
proof -
  have "last (body s) \<in> set (butlast (body s)) \<longleftrightarrow>
        (\<exists>i. i < length (body s) - 1 \<and> body s ! i = last (body s))"
    by (auto simp add: in_set_conv_nth nth_butlast)
  then show ?thesis
    using check_collision_nonempty[OF assms] by (auto simp add: in_grid_def)
qed

theorem check_collision_iff_witness:
  "check_collision \<lparr>body = [(5,5),(6,5),(7,5),(7,6),(6,6),(6,5)], direction = UP,
                     grow_pending = False\<rparr> = Inr True \<and>
   check_collision \<lparr>body = [(38,0),(39,0),(40,0)], direction = RIGHT,
                     grow_pending = False\<rparr> = Inr True \<and>
   check_collision \<lparr>body = [(18,15),(19,15),(20,15)], direction = RIGHT,
                     grow_pending = False\<rparr> = Inr False"
proof -
  have a: "(\<exists>i. i < length [(5,5),(6,5),(7,5),(7,6),(6,6),((6::int),(5::int))] - 1 \<and> [(5,5),(6,5),(7,5),(7,6),(6,6),(6,5)] ! i = ((6::int),(5::int)))"
    by (rule exI[of _ 1]) simp
  have b: "\<not> (\<exists>i. i < length [(18,15),(19,15),((20::int),(15::int))] - 1 \<and> [(18,15),(19,15),(20,15)] ! i = ((20::int),(15::int)))"
  proof
    assume "\<exists>i. i < length [(18,15),(19,15),((20::int),(15::int))] - 1 \<and> [(18,15),(19,15),(20,15)] ! i = ((20::int),(15::int))"
    then obtain i :: nat where i: "i < length [(18,15),(19,15),((20::int),(15::int))] - 1"
      and eq: "[(18,15),(19,15),(20,15)] ! i = ((20::int),(15::int))" by blast
    from i have "i < 2" by simp
    then have "i = 0 \<or> i = 1" by arith
    with eq show False by auto
  qed
  show ?thesis
    using check_collision_iff[of "\<lparr>body = [(5,5),(6,5),(7,5),(7,6),(6,6),(6,5)],
                                   direction = UP, grow_pending = False\<rparr>"]
          check_collision_iff[of "\<lparr>body = [(38,0),(39,0),(40,0)], direction = RIGHT,
                                   grow_pending = False\<rparr>"]
          check_collision_iff[of "\<lparr>body = [(18,15),(19,15),(20,15)], direction = RIGHT,
                                   grow_pending = False\<rparr>"]
          a b
    by (simp add: GRID_WIDTH_eq GRID_HEIGHT_eq)
qed

text \<open>
  C4. For a snake with a non-empty body, \<^verbatim>\<open>move\<close> returns a snake whose body has the
  old length if \<^verbatim>\<open>grow_pending\<close> was false and the old length plus one if it was true;
  \<^verbatim>\<open>grow_pending\<close> is false afterwards; the new head is the old head plus the delta of
  the heading; and the new body is the old body with the new head appended, from which
  (when no growth was pending) the first cell is then removed.
\<close>

theorem move_spec:
  assumes "body s \<noteq> []"
  shows "\<exists>s'. move s = Inr s' \<and>
     length (body s') = (if grow_pending s then length (body s) + 1 else length (body s)) \<and>
     \<not> grow_pending s' \<and>
     last (body s') = (fst (last (body s)) + fst (direction_value (direction s)),
                       snd (last (body s)) + snd (direction_value (direction s))) \<and>
     body s' = (if grow_pending s then body s @ [last (body s')]
                else tl (body s @ [last (body s')])) \<and>
     direction s' = direction s"
proof -
  obtain c cs where b: "body s = c # cs" using assms by (cases "body s") auto
  show ?thesis
    unfolding move_nonempty[OF assms] by (simp add: Let_def b)
qed

theorem move_spec_witness:
  "move \<lparr>body = [(18,15),(19,15),(20,15)], direction = RIGHT, grow_pending = False\<rparr>
     = Inr \<lparr>body = [(19,15),(20,15),(21,15)], direction = RIGHT, grow_pending = False\<rparr> \<and>
   move \<lparr>body = [(18,15),(19,15),(20,15)], direction = UP, grow_pending = True\<rparr>
     = Inr \<lparr>body = [(18,15),(19,15),(20,15),(20,14)], direction = UP,
            grow_pending = False\<rparr>"
  using move_spec[of "\<lparr>body = [(18,15),(19,15),(20,15)], direction = RIGHT,
                       grow_pending = False\<rparr>"]
        move_spec[of "\<lparr>body = [(18,15),(19,15),(20,15)], direction = UP,
                       grow_pending = True\<rparr>"]
  by (auto simp add: Snake.equality)

text \<open>
  C5. \<^verbatim>\<open>change_direction\<close> never raises. The dictionary has an entry for every heading,
  and the entry is the direction with the negated delta. A request different from the
  entry of the current heading becomes the heading and nothing else changes; a request
  equal to it leaves the whole snake as it was.
\<close>

theorem change_direction_spec:
  "\<exists>opp. opposite_directions (direction s) = Some opp \<and>
         direction_value opp = (- fst (direction_value (direction s)),
                                - snd (direction_value (direction s))) \<and>
         opposite_directions opp = Some (direction s) \<and>
         change_direction s d = (if d \<noteq> opp then s\<lparr>direction := d\<rparr> else s)"
  by (cases "direction s") (auto simp add: opposite_directions_def change_direction_def)

theorem change_direction_spec_witness:
  "change_direction \<lparr>body = [(18,15),(19,15),(20,15)], direction = RIGHT,
                      grow_pending = False\<rparr> LEFT
     = \<lparr>body = [(18,15),(19,15),(20,15)], direction = RIGHT, grow_pending = False\<rparr> \<and>
   change_direction \<lparr>body = [(18,15),(19,15),(20,15)], direction = RIGHT,
                      grow_pending = False\<rparr> UP
     = \<lparr>body = [(18,15),(19,15),(20,15)], direction = UP, grow_pending = False\<rparr>"
  using change_direction_spec[of "\<lparr>body = [(18,15),(19,15),(20,15)], direction = RIGHT,
                                   grow_pending = False\<rparr>" LEFT]
        change_direction_spec[of "\<lparr>body = [(18,15),(19,15),(20,15)], direction = RIGHT,
                                   grow_pending = False\<rparr>" UP]
  by (auto simp add: opposite_directions_def)

text \<open>
  C6. For a snake whose (non-empty) body has pairwise distinct cells, \<^verbatim>\<open>move\<close> returns a
  snake on which \<^verbatim>\<open>check_collision\<close> returns a truth value, and if that value is false
  the cells of the new body are again pairwise distinct, with or without pending growth.
\<close>

theorem move_preserves_distinct:
  assumes "body s \<noteq> []" and "distinct (body s)"
  shows "\<exists>s' c. move s = Inr s' \<and> check_collision s' = Inr c \<and>
                (\<not> c \<longrightarrow> distinct (body s'))"
proof -
  define nh where "nh = (fst (last (body s)) + fst (direction_value (direction s)),
                         snd (last (body s)) + snd (direction_value (direction s)))"
  define s' where "s' = (if grow_pending s
                         then s\<lparr>body := body s @ [nh], grow_pending := False\<rparr>
                         else s\<lparr>body := tl (body s @ [nh])\<rparr>)"
  have mv: "move s = Inr s'"
    using move_nonempty[OF assms(1)] by (simp add: s'_def nh_def Let_def)
  obtain c cs where b: "body s = c # cs" using assms(1) by (cases "body s") auto
  have ne: "body s' \<noteq> []" by (simp add: s'_def b)
  have cc: "check_collision s' =
      Inr (\<not> in_grid (last (body s')) \<or> last (body s') \<in> set (butlast (body s')))"
    by (rule check_collision_nonempty[OF ne])
  have "distinct (body s')" if "last (body s') \<notin> set (butlast (body s'))"
    using that assms(2) by (auto simp add: s'_def b butlast_append split: if_splits)
  with mv cc show ?thesis by blast
qed

theorem move_preserves_distinct_witness:
  "distinct [(18,15),(19,15),((20::int),(15::int))] \<and>
   move \<lparr>body = [(18,15),(19,15),(20,15)], direction = RIGHT, grow_pending = True\<rparr>
     = Inr \<lparr>body = [(18,15),(19,15),(20,15),(21,15)], direction = RIGHT,
            grow_pending = False\<rparr> \<and>
   check_collision \<lparr>body = [(18,15),(19,15),(20,15),(21,15)], direction = RIGHT,
                     grow_pending = False\<rparr> = Inr False \<and>
   distinct [(18,15),(19,15),(20,15),((21::int),(15::int))]"
proof -
  let ?s = "\<lparr>body = [(18,15),(19,15),(20,15)], direction = RIGHT, grow_pending = True\<rparr>"
  let ?t = "\<lparr>body = [(18,15),(19,15),(20,15),(21,15)], direction = RIGHT,
             grow_pending = False\<rparr>"
  have mv: "move ?s = Inr ?t"
    by (simp add: move_def get_head_def)
  have cc: "check_collision ?t = Inr False"
    by (simp add: check_collision_def get_head_def GRID_WIDTH_eq GRID_HEIGHT_eq)
  have "body ?s \<noteq> []" and "distinct (body ?s)" by simp_all
  from move_preserves_distinct[OF this] mv cc have "distinct (body ?t)" by auto
  with mv cc show ?thesis by simp
qed

subsection \<open>Game: one call of \<^verbatim>\<open>update\<close>\<close>

lemma check_collision_Inr_nonempty: "check_collision s = Inr c \<Longrightarrow> body s \<noteq> []"
  by (auto simp add: check_collision_def get_head_def)

lemma update_game_over: "game_over g \<Longrightarrow> update rs g = Some (Inr (g, rs))"
  by (simp add: update_def)

lemma update_step:
  assumes "\<not> game_over g" and "move (snake g) = Inr s1" and "check_collision s1 = Inr c"
  shows "update rs g =
     (if c
      then Some (Inr (g\<lparr>snake := s1, high_score := max (high_score g) (score g),
                        game_over := True\<rparr>, rs))
      else if last (body s1) = position (food g)
      then (case spawn rs (food g) (Some (body s1)) of
              None \<Rightarrow> None
            | Some (Inl e) \<Rightarrow> Some (Inl e)
            | Some (Inr (f, rs')) \<Rightarrow>
                Some (Inr (g\<lparr>snake := s1\<lparr>grow_pending := True\<rparr>, food := f,
                              score := score g + 10\<rparr>, rs')))
      else Some (Inr (g\<lparr>snake := s1\<rparr>, rs)))"
proof -
  have ne: "body s1 \<noteq> []" using assms(3) by (rule check_collision_Inr_nonempty)
  show ?thesis
  proof (cases c)
    case True
    with assms show ?thesis
      by (simp add: update_def Let_def max_def)
  next
    case False
    with assms ne show ?thesis
      by (auto simp add: update_def Let_def get_head_def grow_def
               split: option.splits sum.splits)
  qed
qed

lemma update_move_raises:
  "\<not> game_over g \<Longrightarrow> body (snake g) = [] \<Longrightarrow> update rs g = Some (Inl IndexError)"
  by (simp add: update_def move_empty)

lemma attempt_rng_zero: "attempt rng_zero k = (0, 0)"
  by (simp add: attempt_def rng_zero_def)

lemma skip_rng_zero: "skip k rng_zero = \<lparr>draws = (\<lambda>n. 0), cursor = 2 * k\<rparr>"
  by (simp add: skip_def rng_zero_def)

lemma spawn_rng_zero:
  "(0, 0) \<notin> set b \<Longrightarrow>
   spawn rng_zero f (Some b) =
     Some (Inr (f\<lparr>position := (0, 0)\<rparr>, \<lparr>draws = (\<lambda>n. 0), cursor = 2\<rparr>))"
  using spawn_returns_at[of rng_zero 0 b f]
  by (simp add: attempt_rng_zero skip_rng_zero)

lemma move_scenario:
  "move \<lparr>body = [(18, 15), (19, 15), (20, 15)], direction = RIGHT, grow_pending = False\<rparr>
     = Inr \<lparr>body = [(19, 15), (20, 15), (21, 15)], direction = RIGHT,
            grow_pending = False\<rparr>"
  by (simp add: move_def get_head_def popleft_def)

lemma check_collision_scenario:
  "check_collision \<lparr>body = [(19, 15), (20, 15), (21, 15)], direction = RIGHT,
                     grow_pending = False\<rparr> = Inr False"
  by (simp add: check_collision_def get_head_def GRID_WIDTH_eq GRID_HEIGHT_eq)

text \<open>
  C1, as stated, fails on the scenario: after the call the body has three cells,
  \<open>[(19,15),(20,15),(21,15)]\<close>, not the four cells \<open>[(18,15),(19,15),(20,15),(21,15)]\<close>.
\<close>

theorem update_scenario_counterexample:
  "update rng_zero scenario =
     Some (Inr (\<lparr>snake = \<lparr>body = [(19, 15), (20, 15), (21, 15)], direction = RIGHT,
                           grow_pending = True\<rparr>,
                  food = \<lparr>position = (0, 0)\<rparr>,
                  score = 10, high_score = 0, running = True, game_over = False\<rparr>,
                \<lparr>draws = (\<lambda>n. 0), cursor = 2\<rparr>)) \<and>
   [(19, 15), (20, 15), (21, 15)] \<noteq> [(18, 15), (19, 15), (20, 15), ((21::int), (15::int))]"
proof -
  have "\<not> game_over scenario" by (simp add: scenario_def)
  moreover have "move (snake scenario) =
      Inr \<lparr>body = [(19, 15), (20, 15), (21, 15)], direction = RIGHT, grow_pending = False\<rparr>"
    by (simp add: scenario_def move_scenario)
  ultimately show ?thesis
    using update_step[OF _ _ check_collision_scenario, of scenario rng_zero]
    by (simp add: scenario_def spawn_rng_zero)
qed

text \<open>
  C1, amended. For a running game whose snake has a non-empty body, \<^verbatim>\<open>update\<close> moves the
  snake and checks the collision, and then:
  \<^item> on a collision it returns with \<^verbatim>\<open>game_over\<close> set and \<^verbatim>\<open>high_score\<close> the maximum of
    \<^verbatim>\<open>high_score\<close> and \<^verbatim>\<open>score\<close> (the flag is the only report: \<^verbatim>\<open>update\<close> returns no
    value), the random source untouched;
  \<^item> otherwise, if the new head is on the food, every result of the call has
    \<^verbatim>\<open>grow_pending\<close> set, \<^verbatim>\<open>score\<close> increased by 10 and the food on a cell of the grid
    that is not in the body, and the call returns exactly when some pass of the spawn
    loop samples a cell outside the body;
  \<^item> otherwise it returns with only the snake moved.

  In the scenario (body \<open>[(18,15),(19,15),(20,15)]\<close>, heading right, no growth pending,
  food at \<open>(21,15)\<close>, score 0) the body after the call is \<open>[(19,15),(20,15),(21,15)]\<close>:
  the length is still 3 and \<^verbatim>\<open>grow_pending\<close> is set, the score is 10, the food is not in
  the body, \<^verbatim>\<open>game_over\<close> is still false; the length becomes 4 at the next \<^verbatim>\<open>move\<close>.
\<close>

theorem update_running:
  assumes "\<not> game_over g" and "body (snake g) \<noteq> []"
  shows "\<exists>s1 c. move (snake g) = Inr s1 \<and> check_collision s1 = Inr c \<and>
     (c \<longrightarrow> update rs g =
        Some (Inr (g\<lparr>snake := s1, high_score := max (high_score g) (score g),
                     game_over := True\<rparr>, rs))) \<and>
     (\<not> c \<and> last (body s1) = position (food g) \<longrightarrow>
        (\<forall>r. update rs g = Some r \<longrightarrow>
           (\<exists>f' rs'. r = Inr (g\<lparr>snake := s1\<lparr>grow_pending := True\<rparr>, food := f',
                                score := score g + 10\<rparr>, rs') \<and>
                     position f' \<notin> set (body s1) \<and> in_grid (position f'))) \<and>
        ((update rs g \<noteq> None) = (\<exists>k. attempt rs k \<notin> set (body s1)))) \<and>
     (\<not> c \<and> last (body s1) \<noteq> position (food g) \<longrightarrow>
        update rs g = Some (Inr (g\<lparr>snake := s1\<rparr>, rs))) \<and>
     (snake g = \<lparr>body = [(18, 15), (19, 15), (20, 15)], direction = RIGHT,
                 grow_pending = False\<rparr> \<and>
      position (food g) = (21, 15) \<and> score g = 0 \<longrightarrow>
        s1 = \<lparr>body = [(19, 15), (20, 15), (21, 15)], direction = RIGHT,
               grow_pending = False\<rparr> \<and> \<not> c \<and>
        (\<forall>r. update rs g = Some r \<longrightarrow>
           (\<exists>f' rs'. r = Inr (g\<lparr>snake := \<lparr>body = [(19, 15), (20, 15), (21, 15)],
                                           direction = RIGHT, grow_pending = True\<rparr>,
                                food := f', score := 10\<rparr>, rs') \<and>
                     position f' \<notin> set [(19, 15), (20, 15), (21, 15)])) \<and>
        move \<lparr>body = [(19, 15), (20, 15), (21, 15)], direction = RIGHT,
              grow_pending = True\<rparr> =
          Inr \<lparr>body = [(19, 15), (20, 15), (21, 15), (22, 15)], direction = RIGHT,
                 grow_pending = False\<rparr>)"
proof -
  from move_nonempty[OF assms(2)] obtain s1 where mv: "move (snake g) = Inr s1"
    by blast
  have ne: "body s1 \<noteq> []"
    using mv move_nonempty[OF assms(2)] assms(2)
    by (cases "body (snake g)") (auto simp add: Let_def split: if_splits)
  from check_collision_nonempty[OF ne] obtain c where cc: "check_collision s1 = Inr c"
    by blast
  note step = update_step[OF assms(1) mv cc, of rs]
  have coll: "c \<longrightarrow> update rs g =
        Some (Inr (g\<lparr>snake := s1, high_score := max (high_score g) (score g),
                     game_over := True\<rparr>, rs))"
    using step by simp
  have plain: "\<not> c \<and> last (body s1) \<noteq> position (food g) \<longrightarrow>
        update rs g = Some (Inr (g\<lparr>snake := s1\<rparr>, rs))"
    using step by simp
  have eat_result: "\<exists>f' rs'. r = Inr (g\<lparr>snake := s1\<lparr>grow_pending := True\<rparr>, food := f',
                                score := score g + 10\<rparr>, rs') \<and>
                     position f' \<notin> set (body s1) \<and> in_grid (position f')"
    if nc: "\<not> c" and hd: "last (body s1) = position (food g)" and r: "update rs g = Some r"
    for r
  proof -
    from step nc hd r obtain r0 where
      sp: "spawn rs (food g) (Some (body s1)) = Some r0"
      by (auto split: option.splits)
    from spawn_result[OF sp] obtain k where
      k: "r0 = Inr ((food g)\<lparr>position := attempt rs k\<rparr>, skip (Suc k) rs)"
         "attempt rs k \<notin> set (body s1)"
      by blast
    from step nc hd r sp k(1)
    have "r = Inr (g\<lparr>snake := s1\<lparr>grow_pending := True\<rparr>,
                     food := (food g)\<lparr>position := attempt rs k\<rparr>,
                     score := score g + 10\<rparr>, skip (Suc k) rs)"
      by simp
    with k(2) attempt_in_grid[of rs k] show ?thesis by auto
  qed
  have eat_returns: "(update rs g \<noteq> None) = (\<exists>k. attempt rs k \<notin> set (body s1))"
    if nc: "\<not> c" and hd: "last (body s1) = position (food g)"
  proof
    assume "update rs g \<noteq> None"
    then obtain r where "update rs g = Some r" by auto
    with step nc hd obtain r0 where
      sp: "spawn rs (food g) (Some (body s1)) = Some r0"
      by (auto split: option.splits)
    from spawn_result[OF sp] show "\<exists>k. attempt rs k \<notin> set (body s1)" by blast
  next
    assume "\<exists>k. attempt rs k \<notin> set (body s1)"
    from spawn_returns[OF this, of "food g"] step nc hd
    show "update rs g \<noteq> None" by auto
  qed
  have scen: "s1 = \<lparr>body = [(19, 15), (20, 15), (21, 15)], direction = RIGHT,
               grow_pending = False\<rparr> \<and> \<not> c \<and>
        (\<forall>r. update rs g = Some r \<longrightarrow>
           (\<exists>f' rs'. r = Inr (g\<lparr>snake := \<lparr>body = [(19, 15), (20, 15), (21, 15)],
                                           direction = RIGHT, grow_pending = True\<rparr>,
                                food := f', score := 10\<rparr>, rs') \<and>
                     position f' \<notin> set [(19, 15), (20, 15), (21, 15)])) \<and>
        move \<lparr>body = [(19, 15), (20, 15), (21, 15)], direction = RIGHT,
              grow_pending = True\<rparr> =
          Inr \<lparr>body = [(19, 15), (20, 15), (21, 15), (22, 15)], direction = RIGHT,
                 grow_pending = False\<rparr>"
    if sn: "snake g = \<lparr>body = [(18, 15), (19, 15), (20, 15)], direction = RIGHT,
                 grow_pending = False\<rparr>"
      and fd: "position (food g) = (21, 15)" and sc: "score g = 0"
  proof -
    from mv sn have s1: "s1 = \<lparr>body = [(19, 15), (20, 15), (21, 15)], direction = RIGHT,
               grow_pending = False\<rparr>"
      by (simp add: move_scenario)
    from cc s1 have c: "\<not> c" by (simp add: check_collision_scenario)
    have hd: "last (body s1) = position (food g)" by (simp add: s1 fd)
    have mv2: "move \<lparr>body = [(19, 15), (20, 15), (21, 15)], direction = RIGHT,
              grow_pending = True\<rparr> =
          Inr \<lparr>body = [(19, 15), (20, 15), (21, 15), (22, 15)], direction = RIGHT,
                 grow_pending = False\<rparr>"
      by (simp add: move_def get_head_def)
    have "\<exists>f' rs'. r = Inr (g\<lparr>snake := \<lparr>body = [(19, 15), (20, 15), (21, 15)],
                                           direction = RIGHT, grow_pending = True\<rparr>,
                                food := f', score := 10\<rparr>, rs') \<and>
                     position f' \<notin> set [(19, 15), (20, 15), (21, 15)]"
      if "update rs g = Some r" for r
      using eat_result[OF c hd that] s1 sc by auto
    with s1 c mv2 show ?thesis by blast
  qed
  from mv cc coll plain eat_result eat_returns scen show ?thesis
    by blast
qed

theorem update_running_witness:
  "\<not> game_over scenario \<and> body (snake scenario) \<noteq> [] \<and>
   (\<exists>f' rs'. update rng_zero scenario =
        Some (Inr (scenario\<lparr>snake := \<lparr>body = [(19, 15), (20, 15), (21, 15)],
                                       direction = RIGHT, grow_pending = True\<rparr>,
                            food := f', score := 10\<rparr>, rs')) \<and>
        position f' \<notin> set [(19, 15), (20, 15), (21, 15)]) \<and>
   update rng_zero (scenario\<lparr>snake := \<lparr>body = [(2, 15), (1, 15), (0, 15)],
                                         direction = LEFT, grow_pending = False\<rparr>,
                              score := 30, high_score := 20\<rparr>) =
     Some (Inr (scenario\<lparr>snake := \<lparr>body = [(1, 15), (0, 15), (-1, 15)],
                                    direction = LEFT, grow_pending = False\<rparr>,
                         score := 30, high_score := 30, game_over := True\<rparr>, rng_zero)) \<and>
   update rng_zero (scenario\<lparr>food := \<lparr>position = (5, 5)\<rparr>\<rparr>) =
     Some (Inr (scenario\<lparr>snake := \<lparr>body = [(19, 15), (20, 15), (21, 15)],
                                    direction = RIGHT, grow_pending = False\<rparr>,
                         food := \<lparr>position = (5, 5)\<rparr>\<rparr>, rng_zero))"
proof -
  have run: "\<not> game_over scenario" and ne: "body (snake scenario) \<noteq> []"
    by (simp_all add: scenario_def)
  have free: "\<exists>k. attempt rng_zero k \<notin> set [(19, 15), (20, 15), (21, 15)]"
    by (simp add: attempt_rng_zero)
  have eat: "\<exists>f' rs'. update rng_zero scenario =
        Some (Inr (scenario\<lparr>snake := \<lparr>body = [(19, 15), (20, 15), (21, 15)],
                                       direction = RIGHT, grow_pending = True\<rparr>,
                            food := f', score := 10\<rparr>, rs')) \<and>
        position f' \<notin> set [(19, 15), (20, 15), (21, 15)]"
  proof -
    from update_running[OF run ne, of rng_zero] obtain s1 c where
      a: "snake scenario = \<lparr>body = [(18, 15), (19, 15), (20, 15)], direction = RIGHT,
                 grow_pending = False\<rparr> \<and>
          position (food scenario) = (21, 15) \<and> score scenario = 0 \<longrightarrow>
            s1 = \<lparr>body = [(19, 15), (20, 15), (21, 15)], direction = RIGHT,
               grow_pending = False\<rparr> \<and> \<not> c \<and>
            (\<forall>r. update rng_zero scenario = Some r \<longrightarrow>
              (\<exists>f' rs'. r = Inr (scenario\<lparr>snake := \<lparr>body = [(19, 15), (20, 15), (21, 15)],
                                           direction = RIGHT, grow_pending = True\<rparr>,
                                food := f', score := 10\<rparr>, rs') \<and>
                     position f' \<notin> set [(19, 15), (20, 15), (21, 15)]))"
      and b: "\<not> c \<and> last (body s1) = position (food scenario) \<longrightarrow>
          ((update rng_zero scenario \<noteq> None) = (\<exists>k. attempt rng_zero k \<notin> set (body s1)))"
      by blast
    have pre: "snake scenario = \<lparr>body = [(18, 15), (19, 15), (20, 15)], direction = RIGHT,
                 grow_pending = False\<rparr> \<and>
          position (food scenario) = (21, 15) \<and> score scenario = 0"
      by (simp add: scenario_def)
    with a have s1: "s1 = \<lparr>body = [(19, 15), (20, 15), (21, 15)], direction = RIGHT,
               grow_pending = False\<rparr>" and c: "\<not> c" by blast+
    have "last (body s1) = position (food scenario)" by (simp add: s1 scenario_def)
    with b c free have "update rng_zero scenario \<noteq> None" by (simp add: s1)
    then obtain r where "update rng_zero scenario = Some r" by auto
    with a pre show ?thesis by blast
  qed
  let ?w = "scenario\<lparr>snake := \<lparr>body = [(2, 15), (1, 15), (0, 15)],
                                 direction = LEFT, grow_pending = False\<rparr>,
                      score := 30, high_score := 20\<rparr>"
  have wall: "update rng_zero ?w =
     Some (Inr (scenario\<lparr>snake := \<lparr>body = [(1, 15), (0, 15), (-1, 15)],
                                    direction = LEFT, grow_pending = False\<rparr>,
                         score := 30, high_score := 30, game_over := True\<rparr>, rng_zero))"
    using update_running[of ?w rng_zero]
    by (auto simp add: scenario_def move_def get_head_def popleft_def check_collision_def)
  let ?p = "scenario\<lparr>food := \<lparr>position = (5, 5)\<rparr>\<rparr>"
  have plain: "update rng_zero ?p =
     Some (Inr (scenario\<lparr>snake := \<lparr>body = [(19, 15), (20, 15), (21, 15)],
                                    direction = RIGHT, grow_pending = False\<rparr>,
                         food := \<lparr>position = (5, 5)\<rparr>\<rparr>, rng_zero))"
    using update_running[of ?p rng_zero]
    by (auto simp add: scenario_def move_scenario check_collision_scenario)
  from run ne eat wall plain show ?thesis by blast
qed

subsection \<open>Game: after the run has ended\<close>

text \<open>
  C9. Once \<^verbatim>\<open>game_over\<close> is set, \<^verbatim>\<open>update\<close> returns at once and changes nothing: after any
  number of calls in a row the game (snake body, heading, pending growth, food, score,
  high score, flags) and the random source are what they were.
\<close>

theorem updates_game_over:
  assumes "game_over g"
  shows "update rs g = Some (Inr (g, rs)) \<and> updates n rs g = Some (Inr (g, rs))"
proof
  show "update rs g = Some (Inr (g, rs))" using assms by (rule update_game_over)
  show "updates n rs g = Some (Inr (g, rs))"
    by (induction n) (simp_all add: update_game_over[OF assms])
qed

theorem updates_game_over_witness:
  "game_over (scenario\<lparr>game_over := True\<rparr>) \<and>
   update rng_zero (scenario\<lparr>game_over := True\<rparr>)
     = Some (Inr (scenario\<lparr>game_over := True\<rparr>, rng_zero)) \<and>
   updates 3 rng_zero (scenario\<lparr>game_over := True\<rparr>)
     = Some (Inr (scenario\<lparr>game_over := True\<rparr>, rng_zero))"
  using updates_game_over[of "scenario\<lparr>game_over := True\<rparr>" rng_zero 3]
  by simp

subsection \<open>Game: \<^verbatim>\<open>reset_game\<close>\<close>

lemma snake_reset_eq:
  "snake_reset s =
     \<lparr>body = [(GRID_WIDTH div 2 - 2, GRID_HEIGHT div 2),
              (GRID_WIDTH div 2 - 1, GRID_HEIGHT div 2),
              (GRID_WIDTH div 2, GRID_HEIGHT div 2)],
      direction = RIGHT, grow_pending = False\<rparr>"
proof -
  have "range_down INITIAL_SNAKE_LENGTH = [2, 1, 0]"
    by (simp add: range_down_def INITIAL_SNAKE_LENGTH_def upto.simps)
  then show ?thesis
    by (simp add: snake_reset_def Let_def)
qed

lemma body_snake_reset: "body (snake_reset s) = [(18, 15), (19, 15), (20, 15)]"
  by (simp add: snake_reset_eq GRID_WIDTH_eq GRID_HEIGHT_eq)

lemma reset_game_result:
  assumes "reset_game rs g = Some r"
  shows "\<exists>k. r = Inr (g\<lparr>snake := snake_reset (snake g),
                         food := (food g)\<lparr>position := attempt rs k\<rparr>,
                         score := 0, game_over := False\<rparr>, skip (Suc k) rs) \<and>
             attempt rs k \<notin> set (body (snake_reset (snake g)))"
proof -
  from assms obtain r0 where
    sp: "spawn rs (food g) (Some (body (snake_reset (snake g)))) = Some r0"
    by (auto simp add: reset_game_def Let_def split: option.splits)
  from spawn_result[OF sp] obtain k where
    k: "r0 = Inr ((food g)\<lparr>position := attempt rs k\<rparr>, skip (Suc k) rs)"
       "attempt rs k \<notin> set (body (snake_reset (snake g)))"
    by blast
  from assms sp k(1)
  have "r = Inr (g\<lparr>snake := snake_reset (snake g),
                    food := (food g)\<lparr>position := attempt rs k\<rparr>,
                    score := 0, game_over := False\<rparr>, skip (Suc k) rs)"
    by (simp add: reset_game_def Let_def)
  with k(2) show ?thesis by blast
qed

lemma reset_game_returns:
  "(reset_game rs g \<noteq> None) = (\<exists>k. attempt rs k \<notin> set (body (snake_reset (snake g))))"
proof
  assume "reset_game rs g \<noteq> None"
  then obtain r where "reset_game rs g = Some r" by auto
  from reset_game_result[OF this] show "\<exists>k. attempt rs k \<notin> set (body (snake_reset (snake g)))"
    by blast
next
  assume "\<exists>k. attempt rs k \<notin> set (body (snake_reset (snake g)))"
  from spawn_returns[OF this, of "food g"]
  show "reset_game rs g \<noteq> None"
    by (auto simp add: reset_game_def Let_def)
qed

text \<open>
  C8. \<^verbatim>\<open>Snake.reset\<close> always leaves the three cells \<open>(18,15), (19,15), (20,15)\<close>, tail first:
  consecutive cells of the middle row that end at the centre cell
  \<open>(GRID_WIDTH div 2, GRID_HEIGHT div 2)\<close>, which is the head; the length is
  \<^verbatim>\<open>INITIAL_SNAKE_LENGTH\<close>, the heading is right and no growth is pending. Whatever
  \<^verbatim>\<open>reset_game\<close> returns is a game with that snake, score 0, \<^verbatim>\<open>game_over\<close> false and the
  food outside the snake. \<^verbatim>\<open>reset_game\<close> raises nothing, and it returns exactly when some
  pass of the spawn loop samples a cell outside the three cells.
\<close>

theorem reset_game_spec:
  "snake_reset s =
     \<lparr>body = [(GRID_WIDTH div 2 - 2, GRID_HEIGHT div 2),
              (GRID_WIDTH div 2 - 1, GRID_HEIGHT div 2),
              (GRID_WIDTH div 2, GRID_HEIGHT div 2)],
      direction = RIGHT, grow_pending = False\<rparr> \<and>
   body (snake_reset s) = [(18, 15), (19, 15), (20, 15)] \<and>
   int (length (body (snake_reset s))) = INITIAL_SNAKE_LENGTH \<and>
   get_head (snake_reset s) = Inr (GRID_WIDTH div 2, GRID_HEIGHT div 2) \<and>
   (\<forall>r. reset_game rs g = Some r \<longrightarrow>
      (\<exists>g' rs'. r = Inr (g', rs') \<and>
         snake g' = snake_reset (snake g) \<and> score g' = 0 \<and> \<not> game_over g' \<and>
         position (food g') \<notin> set (body (snake g')))) \<and>
   ((reset_game rs g \<noteq> None) = (\<exists>k. attempt rs k \<notin> set [(18, 15), (19, 15), (20, 15)]))"
proof -
  have "\<exists>g' rs'. r = Inr (g', rs') \<and>
         snake g' = snake_reset (snake g) \<and> score g' = 0 \<and> \<not> game_over g' \<and>
         position (food g') \<notin> set (body (snake g'))"
    if "reset_game rs g = Some r" for r
    using reset_game_result[OF that] by auto
  moreover have "get_head (snake_reset s) = Inr (GRID_WIDTH div 2, GRID_HEIGHT div 2)"
    by (simp add: get_head_def snake_reset_eq)
  moreover have "int (length (body (snake_reset s))) = INITIAL_SNAKE_LENGTH"
    by (simp add: body_snake_reset INITIAL_SNAKE_LENGTH_def)
  ultimately show ?thesis
    using snake_reset_eq[of s] body_snake_reset[of s] reset_game_returns[of rs g]
    by (simp add: body_snake_reset)
qed

theorem reset_game_spec_witness:
  "reset_game rng_zero
     \<lparr>snake = \<lparr>body = [(1, 15), (0, 15), (-1, 15)], direction = LEFT, grow_pending = True\<rparr>,
      food = \<lparr>position = (21, 15)\<rparr>,
      score = 30, high_score = 20, running = True, game_over = True\<rparr>
   = Some (Inr (\<lparr>snake = \<lparr>body = [(18, 15), (19, 15), (20, 15)], direction = RIGHT,
                           grow_pending = False\<rparr>,
                  food = \<lparr>position = (0, 0)\<rparr>,
                  score = 0, high_score = 20, running = True, game_over = False\<rparr>,
                \<lparr>draws = (\<lambda>n. 0), cursor = 2\<rparr>))"
proof -
  let ?g = "\<lparr>snake = \<lparr>body = [(1, 15), (0, 15), (-1, 15)], direction = LEFT,
                       grow_pending = True\<rparr>,
             food = \<lparr>position = (21, 15)\<rparr>,
             score = 30, high_score = 20, running = True, game_over = True\<rparr>"
  have "\<exists>k. attempt rng_zero k \<notin> set [(18, 15), (19, 15), (20, 15)]"
    by (simp add: attempt_rng_zero)
  with reset_game_spec[of "snake ?g" rng_zero ?g]
  have "reset_game rng_zero ?g \<noteq> None" by blast
  then obtain r where r: "reset_game rng_zero ?g = Some r" by auto
  with reset_game_spec[of "snake ?g" rng_zero ?g] obtain g' rs' where
    "r = Inr (g', rs')" "snake g' = snake_reset (snake ?g)" "score g' = 0" "\<not> game_over g'"
    by blast
  moreover have "reset_game rng_zero ?g =
     Some (Inr (\<lparr>snake = \<lparr>body = [(18, 15), (19, 15), (20, 15)], direction = RIGHT,
                           grow_pending = False\<rparr>,
                  food = \<lparr>position = (0, 0)\<rparr>,
                  score = 0, high_score = 20, running = True, game_over = False\<rparr>,
                \<lparr>draws = (\<lambda>n. 0), cursor = 2\<rparr>))"
    by (simp add: reset_game_def Let_def snake_reset_eq GRID_WIDTH_eq GRID_HEIGHT_eq
                  spawn_rng_zero)
  ultimately show ?thesis using r by simp
qed

subsection \<open>Game: the high score\<close>

lemma run_ends_iff:
  "run_ends g = (\<not> game_over g \<and> (\<exists>s1. move (snake g) = Inr s1 \<and> check_collision s1 = Inr True))"
  by (auto simp add: run_ends_def split: sum.splits)

lemma update_run_ends:
  assumes "run_ends g"
  shows "\<exists>s1. update rs g =
           Some (Inr (g\<lparr>snake := s1, high_score := max (high_score g) (score g),
                        game_over := True\<rparr>, rs))"
proof -
  from assms obtain s1 where "\<not> game_over g" "move (snake g) = Inr s1"
    "check_collision s1 = Inr True"
    by (auto simp add: run_ends_iff)
  from update_step[OF this, of rs] show ?thesis by auto
qed

lemma update_not_run_ends:
  assumes "\<not> run_ends g" and "update rs g = Some (Inr (g', rs'))"
  shows "high_score g' = high_score g \<and> game_over g' = game_over g"
proof (cases "game_over g")
  case True
  with assms(2) show ?thesis by (simp add: update_game_over)
next
  case False
  from assms(2) False obtain s1 where mv: "move (snake g) = Inr s1"
    by (cases "move (snake g)") (auto simp add: update_def)
  from assms(2) False mv obtain c where cc: "check_collision s1 = Inr c"
    by (cases "check_collision s1") (auto simp add: update_def Let_def)
  from assms(1) False mv cc have nc: "\<not> c" by (auto simp add: run_ends_iff)
  from update_step[OF False mv cc, of rs] nc assms(2) show ?thesis
    by (auto split: if_splits option.splits sum.splits)
qed

lemma reset_game_high_score:
  "reset_game rs g = Some (Inr (g', rs')) \<Longrightarrow> high_score g' = high_score g \<and> score g' = 0"
  by (drule reset_game_result) auto

lemma handle_event_high_score:
  "handle_event rs g ev = Some (Inr (g', rs')) \<Longrightarrow> high_score g' = high_score g"
  by (cases ev)
     (auto simp add: handle_event_def split: if_splits dest: reset_game_high_score)

lemma handle_events_high_score:
  "handle_events rs g evs = Some (Inr (g', rs')) \<Longrightarrow> high_score g' = high_score g"
proof (induction evs arbitrary: rs g)
  case Nil
  then show ?case by simp
next
  case (Cons ev evs)
  from Cons.prems obtain g1 rs1 where
    h: "handle_event rs g ev = Some (Inr (g1, rs1))"
    and t: "handle_events rs1 g1 evs = Some (Inr (g', rs'))"
    by (auto split: option.splits sum.splits)
  from Cons.IH[OF t] handle_event_high_score[OF h] show ?case by simp
qed

text \<open>
  C7. A call of \<^verbatim>\<open>update\<close> that ends the run (the game was running and the moved snake
  collides) returns with \<^verbatim>\<open>high_score\<close> the maximum of the old \<^verbatim>\<open>high_score\<close> and
  \<^verbatim>\<open>score\<close>; this is exactly the call that turns \<^verbatim>\<open>game_over\<close> from false to true. Every
  other call of \<^verbatim>\<open>update\<close>, every \<^verbatim>\<open>reset_game\<close> and every \<^verbatim>\<open>handle_events\<close> leaves
  \<^verbatim>\<open>high_score\<close> as it was. After \<^verbatim>\<open>reset_game\<close> the score is 0; \<^verbatim>\<open>reset_game\<close> returns
  whenever some pass of the spawn loop samples a cell outside the fresh snake.
\<close>

theorem high_score_frame:
  "(run_ends g \<longrightarrow>
      (\<exists>g'. update rs g = Some (Inr (g', rs)) \<and>
            high_score g' = max (high_score g) (score g) \<and> score g' = score g)) \<and>
   (\<forall>g' rs'. update rs g = Some (Inr (g', rs')) \<longrightarrow>
      high_score g' = (if run_ends g then max (high_score g) (score g) else high_score g) \<and>
      (run_ends g \<longleftrightarrow> \<not> game_over g \<and> game_over g')) \<and>
   (\<forall>g' rs'. reset_game rs g = Some (Inr (g', rs')) \<longrightarrow>
      high_score g' = high_score g \<and> score g' = 0) \<and>
   ((\<exists>k. attempt rs k \<notin> set (body (snake_reset (snake g)))) \<longrightarrow>
      (\<exists>g' rs'. reset_game rs g = Some (Inr (g', rs')))) \<and>
   (\<forall>g' rs'. handle_events rs g evs = Some (Inr (g', rs')) \<longrightarrow>
      high_score g' = high_score g)"
proof -
  have a: "\<exists>g'. update rs g = Some (Inr (g', rs)) \<and>
            high_score g' = max (high_score g) (score g) \<and> score g' = score g"
    if "run_ends g"
    using update_run_ends[OF that, of rs] by auto
  have b: "high_score g' = (if run_ends g then max (high_score g) (score g) else high_score g) \<and>
      (run_ends g \<longleftrightarrow> \<not> game_over g \<and> game_over g')"
    if u: "update rs g = Some (Inr (g', rs'))" for g' rs'
  proof (cases "run_ends g")
    case True
    from update_run_ends[OF True, of rs] u True show ?thesis
      by (auto simp add: run_ends_iff)
  next
    case False
    from update_not_run_ends[OF False u] False show ?thesis by auto
  qed
  have c: "\<exists>g' rs'. reset_game rs g = Some (Inr (g', rs'))"
    if "\<exists>k. attempt rs k \<notin> set (body (snake_reset (snake g)))"
  proof -
    from that have "reset_game rs g \<noteq> None" using reset_game_returns[of rs g] by blast
    then obtain r where r: "reset_game rs g = Some r" by auto
    from reset_game_result[OF r] r show ?thesis by blast
  qed
  from a b c reset_game_high_score handle_events_high_score show ?thesis
    by blast
qed

theorem high_score_frame_witness:
  "run_ends (scenario\<lparr>snake := \<lparr>body = [(2, 15), (1, 15), (0, 15)], direction = LEFT,
                                  grow_pending = False\<rparr>,
                       score := 30, high_score := 20\<rparr>) \<and>
   (\<exists>g'. update rng_zero
            (scenario\<lparr>snake := \<lparr>body = [(2, 15), (1, 15), (0, 15)], direction = LEFT,
                                  grow_pending = False\<rparr>,
                       score := 30, high_score := 20\<rparr>) = Some (Inr (g', rng_zero)) \<and>
         high_score g' = 30 \<and> score g' = 30 \<and> game_over g') \<and>
   (\<exists>g' rs'. update rng_zero scenario = Some (Inr (g', rs')) \<and> high_score g' = 0) \<and>
   (\<exists>g' rs'. reset_game rng_zero (scenario\<lparr>score := 30, high_score := 30,
                                            game_over := True\<rparr>) = Some (Inr (g', rs')) \<and>
             high_score g' = 30 \<and> score g' = 0) \<and>
   (\<exists>g' rs'. handle_events rng_zero (scenario\<lparr>score := 30, high_score := 30,
                                               game_over := True\<rparr>)
                [KEYDOWN K_SPACE, KEYDOWN K_UP, OTHER_EVENT, QUIT] = Some (Inr (g', rs')) \<and>
             high_score g' = 30)"
proof -
  let ?w = "scenario\<lparr>snake := \<lparr>body = [(2, 15), (1, 15), (0, 15)], direction = LEFT,
                                 grow_pending = False\<rparr>,
                      score := 30, high_score := 20\<rparr>"
  let ?o = "scenario\<lparr>score := 30, high_score := 30, game_over := True\<rparr>"
  let ?evs = "[KEYDOWN K_SPACE, KEYDOWN K_UP, OTHER_EVENT, QUIT]"
  have re: "run_ends ?w"
    by (simp add: run_ends_def scenario_def move_def get_head_def popleft_def
                  check_collision_def)
  have nre: "\<not> run_ends scenario"
    by (simp add: run_ends_def scenario_def move_scenario check_collision_scenario)
  have w: "\<exists>g'. update rng_zero ?w = Some (Inr (g', rng_zero)) \<and>
         high_score g' = 30 \<and> score g' = 30 \<and> game_over g'"
  proof -
    from high_score_frame[of ?w rng_zero] re obtain g' where
      g': "update rng_zero ?w = Some (Inr (g', rng_zero))"
          "high_score g' = max (high_score ?w) (score ?w)" "score g' = score ?w"
      by blast
    from high_score_frame[of ?w rng_zero] g'(1) re have "game_over g'" by blast
    with g' show ?thesis by (auto simp add: scenario_def)
  qed
  have u: "update rng_zero scenario =
     Some (Inr (\<lparr>snake = \<lparr>body = [(19, 15), (20, 15), (21, 15)], direction = RIGHT,
                           grow_pending = True\<rparr>,
                  food = \<lparr>position = (0, 0)\<rparr>,
                  score = 10, high_score = 0, running = True, game_over = False\<rparr>,
                \<lparr>draws = (\<lambda>n. 0), cursor = 2\<rparr>))"
    by (simp add: update_def scenario_def move_scenario check_collision_scenario Let_def
                  get_head_def grow_def spawn_rng_zero)
  have s: "\<exists>g' rs'. update rng_zero scenario = Some (Inr (g', rs')) \<and> high_score g' = 0"
    using high_score_frame[of scenario rng_zero] u nre by (simp add: scenario_def)
  have free: "\<exists>k. attempt rng_zero k \<notin> set (body (snake_reset (snake ?o)))"
    by (simp add: attempt_rng_zero body_snake_reset)
  have r: "\<exists>g' rs'. reset_game rng_zero ?o = Some (Inr (g', rs')) \<and>
             high_score g' = 30 \<and> score g' = 0"
  proof -
    from high_score_frame[of ?o rng_zero] free obtain g' rs' where
      g': "reset_game rng_zero ?o = Some (Inr (g', rs'))" by blast
    with high_score_frame[of ?o rng_zero] have "high_score g' = high_score ?o \<and> score g' = 0"
      by blast
    with g' show ?thesis by (auto simp add: scenario_def)
  qed
  have ev: "handle_events rng_zero ?o ?evs =
     Some (Inr (\<lparr>snake = \<lparr>body = [(18, 15), (19, 15), (20, 15)], direction = UP,
                           grow_pending = False\<rparr>,
                  food = \<lparr>position = (0, 0)\<rparr>,
                  score = 0, high_score = 30, running = False, game_over = False\<rparr>,
                \<lparr>draws = (\<lambda>n. 0), cursor = 2\<rparr>))"
    by (simp add: handle_event_def reset_game_def Let_def scenario_def snake_reset_eq
                  GRID_WIDTH_eq GRID_HEIGHT_eq spawn_rng_zero change_direction_def
                  opposite_directions_def)
  have e: "\<exists>g' rs'. handle_events rng_zero ?o ?evs = Some (Inr (g', rs')) \<and> high_score g' = 30"
    using high_score_frame[of ?o rng_zero ?evs] ev by (simp add: scenario_def)
  from re w s r e show ?thesis by blast
qed

subsection \<open>Food: where it lands and when the loop ends\<close>

lemma all_cells_covered: "attempt rs k \<in> set all_cells"
  by (rule in_grid_all_cells) (rule attempt_in_grid)

text \<open>
  C2, as stated, fails: with every cell of the grid occupied the call never returns, so
  it neither terminates nor reports a full board.
\<close>

theorem spawn_full_grid_counterexample:
  "spawn rng_zero \<lparr>position = (21, 15)\<rparr> (Some all_cells) = None"
  by (rule spawn_diverges) (simp add: all_cells_covered)

text \<open>
  C2, amended. \<^verbatim>\<open>Food.spawn\<close> has no retry cap. Called with a list of occupied cells it
  returns exactly when some pass of its loop samples a cell outside the list; it then
  returns the cell of the first such pass and raises nothing. When the list contains every
  cell of the grid it never returns, whatever the random source, and no board-full
  condition is reported. Called without a list it returns after one pass.
\<close>

theorem spawn_no_retry_cap:
  "((spawn rs f (Some b) \<noteq> None) = (\<exists>k. attempt rs k \<notin> set b)) \<and>
   (\<forall>k. attempt rs k \<notin> set b \<and> (\<forall>j<k. attempt rs j \<in> set b) \<longrightarrow>
        spawn rs f (Some b) = Some (Inr (f\<lparr>position := attempt rs k\<rparr>, skip (Suc k) rs))) \<and>
   ((\<forall>c. in_grid c \<longrightarrow> c \<in> set b) \<longrightarrow> spawn rs f (Some b) = None) \<and>
   spawn rs f None = Some (Inr (f\<lparr>position := attempt rs 0\<rparr>, skip 1 rs))"
proof -
  have "(spawn rs f (Some b) \<noteq> None) = (\<exists>k. attempt rs k \<notin> set b)"
  proof
    assume "spawn rs f (Some b) \<noteq> None"
    then obtain r where "spawn rs f (Some b) = Some r" by auto
    from spawn_result[OF this] show "\<exists>k. attempt rs k \<notin> set b" by blast
  next
    assume "\<exists>k. attempt rs k \<notin> set b"
    from spawn_returns[OF this, of f] show "spawn rs f (Some b) \<noteq> None" by auto
  qed
  moreover have "spawn rs f (Some b) = None" if "\<forall>c. in_grid c \<longrightarrow> c \<in> set b"
    using that attempt_in_grid[of rs] by (intro spawn_diverges) blast
  ultimately show ?thesis
    using spawn_returns_at[of rs _ b f] spawn_None_arg[of rs f] by blast
qed

theorem spawn_no_retry_cap_witness:
  "spawn rng_count \<lparr>position = (21, 15)\<rparr> (Some all_cells) = None \<and>
   spawn rng_count \<lparr>position = (21, 15)\<rparr> (Some [(0, 1), (2, 3), (4, 5)])
     = Some (Inr (\<lparr>position = (6, 7)\<rparr>, \<lparr>draws = (\<lambda>n. n), cursor = 8\<rparr>))"
proof -
  let ?f = "\<lparr>position = (21, 15)\<rparr>"
  let ?b = "[(0, 1), (2, 3), (4, 5)] :: cell list"
  have full: "\<forall>c. in_grid c \<longrightarrow> c \<in> set all_cells"
    by (simp add: in_grid_all_cells)
  have att: "attempt rng_count k = (int ((2 * k) mod 40), int ((2 * k + 1) mod 30))" for k
    by (simp add: attempt_def rng_count_def GRID_WIDTH_eq GRID_HEIGHT_eq)
  have free: "attempt rng_count 3 \<notin> set ?b \<and> (\<forall>j<3. attempt rng_count j \<in> set ?b)"
  proof -
    have "\<forall>j<3. attempt rng_count j \<in> set ?b"
    proof (intro allI impI)
      fix j :: nat assume "j < 3"
      then have "j = 0 \<or> j = 1 \<or> j = 2" by arith
      then show "attempt rng_count j \<in> set ?b" by (auto simp add: att)
    qed
    then show ?thesis by (simp add: att)
  qed
  from spawn_no_retry_cap[of rng_count ?f all_cells] full
  have "spawn rng_count ?f (Some all_cells) = None" by blast
  moreover from spawn_no_retry_cap[of rng_count ?f ?b] free
  have "spawn rng_count ?f (Some ?b) =
        Some (Inr (?f\<lparr>position := attempt rng_count 3\<rparr>, skip (Suc 3) rng_count))"
    by blast
  ultimately show ?thesis
    using att[of 3] by (simp add: skip_def rng_count_def)
qed

text \<open>
  C10. Every result of \<^verbatim>\<open>Food.spawn\<close> is a food whose position \<open>(x, y)\<close> has
  \<open>0 \<le> x < GRID_WIDTH\<close> and \<open>0 \<le> y < GRID_HEIGHT\<close>, and no call raises. \<^verbatim>\<open>Food.__init__\<close>
  always returns, with the food in the grid. \<^verbatim>\<open>update\<close> keeps a food that is in the grid
  in the grid, and the food after \<^verbatim>\<open>reset_game\<close> is in the grid.
\<close>

theorem food_in_grid:
  "(\<forall>r. spawn rs f sb = Some r \<longrightarrow>
      (\<exists>f' rs'. r = Inr (f', rs') \<and>
         0 \<le> fst (position f') \<and> fst (position f') < GRID_WIDTH \<and>
         0 \<le> snd (position f') \<and> snd (position f') < GRID_HEIGHT)) \<and>
   (\<exists>f' rs'. food_init rs = Some (Inr (f', rs')) \<and> in_grid (position f')) \<and>
   (\<forall>g' rs'. in_grid (position (food g)) \<and> update rs g = Some (Inr (g', rs')) \<longrightarrow>
      in_grid (position (food g'))) \<and>
   (\<forall>g' rs'. reset_game rs g = Some (Inr (g', rs')) \<longrightarrow> in_grid (position (food g')))"
proof -
  have a: "\<exists>f' rs'. r = Inr (f', rs') \<and>
         0 \<le> fst (position f') \<and> fst (position f') < GRID_WIDTH \<and>
         0 \<le> snd (position f') \<and> snd (position f') < GRID_HEIGHT"
    if "spawn rs f sb = Some r" for r
    using spawn_result[OF that] attempt_in_grid[of rs] by (auto simp add: in_grid_def)
  have b: "\<exists>f' rs'. food_init rs = Some (Inr (f', rs')) \<and> in_grid (position f')"
    by (simp add: food_init_def spawn_None_arg attempt_in_grid)
  have c: "in_grid (position (food g'))"
    if ig: "in_grid (position (food g))" and u: "update rs g = Some (Inr (g', rs'))"
    for g' rs'
  proof (cases "game_over g")
    case True
    with u ig show ?thesis by (simp add: update_game_over)
  next
    case False
    from u False obtain s1 where mv: "move (snake g) = Inr s1"
      by (cases "move (snake g)") (auto simp add: update_def)
    from u False mv obtain c where cc: "check_collision s1 = Inr c"
      by (cases "check_collision s1") (auto simp add: update_def Let_def)
    note step = update_step[OF False mv cc, of rs]
    show ?thesis
    proof (cases "\<not> c \<and> last (body s1) = position (food g)")
      case True
      with step u obtain r0 where sp: "spawn rs (food g) (Some (body s1)) = Some r0"
        by (auto split: option.splits)
      from spawn_result[OF sp] obtain k where
        "r0 = Inr ((food g)\<lparr>position := attempt rs k\<rparr>, skip (Suc k) rs)" by blast
      with step u True sp have "position (food g') = attempt rs k" by auto
      then show ?thesis by (simp add: attempt_in_grid)
    next
      case False
      with step u ig show ?thesis by (auto split: if_splits)
    qed
  qed
  have d: "in_grid (position (food g'))"
    if "reset_game rs g = Some (Inr (g', rs'))" for g' rs'
    using reset_game_result[OF that] by (auto simp add: attempt_in_grid)
  from a b c d show ?thesis by blast
qed

theorem food_in_grid_witness:
  "spawn rng_count \<lparr>position = (0, 0)\<rparr> (Some [(0, 1)])
     = Some (Inr (\<lparr>position = (2, 3)\<rparr>, \<lparr>draws = (\<lambda>n. n), cursor = 4\<rparr>)) \<and>
   (0::int) \<le> 2 \<and> 2 < GRID_WIDTH \<and> (0::int) \<le> 3 \<and> 3 < GRID_HEIGHT \<and>
   in_grid (position (food scenario)) \<and>
   (\<exists>g' rs'. update rng_count scenario = Some (Inr (g', rs')) \<and>
             in_grid (position (food g'))) \<and>
   (\<exists>g' rs'. reset_game rng_count scenario = Some (Inr (g', rs')) \<and>
             in_grid (position (food g')))"
proof -
  have sp: "spawn rng_count f (Some [(0, 1)])
     = Some (Inr (f\<lparr>position := (2, 3)\<rparr>, \<lparr>draws = (\<lambda>n. n), cursor = 4\<rparr>))" for f
    using spawn_returns_at[of rng_count 1 "[(0, 1)]" f]
    by (simp add: attempt_def skip_def rng_count_def GRID_WIDTH_eq GRID_HEIGHT_eq)
  have sp0: "(0, 1) \<notin> set b \<Longrightarrow> spawn rng_count f (Some b)
     = Some (Inr (f\<lparr>position := (0, 1)\<rparr>, \<lparr>draws = (\<lambda>n. n), cursor = 2\<rparr>))" for f b
    using spawn_returns_at[of rng_count 0 b f]
    by (simp add: attempt_def skip_def rng_count_def GRID_WIDTH_eq GRID_HEIGHT_eq)
  from food_in_grid[of rng_count "\<lparr>position = (0, 0)\<rparr>" "Some [(0, 1)]"] sp
  have a: "(0::int) \<le> 2 \<and> 2 < GRID_WIDTH \<and> (0::int) \<le> 3 \<and> 3 < GRID_HEIGHT"
    by auto
  have ig: "in_grid (position (food scenario))"
    by (simp add: scenario_def in_grid_def GRID_WIDTH_eq GRID_HEIGHT_eq)
  have u: "\<exists>g' rs'. update rng_count scenario = Some (Inr (g', rs'))"
    by (simp add: update_def scenario_def move_scenario check_collision_scenario Let_def
                  get_head_def grow_def sp0)
  have r: "\<exists>g' rs'. reset_game rng_count scenario = Some (Inr (g', rs'))"
    by (simp add: reset_game_def Let_def body_snake_reset sp0)
  from food_in_grid[of rng_count _ _ scenario] ig u
  have u': "\<exists>g' rs'. update rng_count scenario = Some (Inr (g', rs')) \<and>
             in_grid (position (food g'))" by blast
  from food_in_grid[of rng_count _ _ scenario] r
  have r': "\<exists>g' rs'. reset_game rng_count scenario = Some (Inr (g', rs')) \<and>
             in_grid (position (food g'))" by blast
  from sp[of "\<lparr>position = (0, 0)\<rparr>"] a ig u' r' show ?thesis by simp
qed

end
